theory Spec2Isabelle
  imports Complex_Main "HOL-Library.Sublist" "HOL-Library.AList"
begin

section \<open>PDF regression harness: \<open>scripts/pdf_regression.py\<close>\<close>

text \<open>
  The script renders a fixture to a PDF, checks four text invariants on pages 1 and 2 and
  compares page rasters against stored baseline images. The embedding below follows the
  source function by function. What the script obtains from outside (the HTTP renderer,
  \<open>pdftotext\<close>, \<open>pdftoppm\<close>, the clock, the file system) is a parameter or an explicit
  state; every \<open>raise\<close> of the source, and every exception that an operation of the source
  raises by itself, is a value of type \<open>error\<close>.

  Python's \<open>float\<close> results are modelled by the exact rational number they approximate
  (\<open>100.0 * changed / total\<close> is the rational \<open>100 * changed / total\<close>, of which the
  double that Python returns is the nearest one); integers are unbounded, as Python's are.
\<close>

subsection \<open>Errors\<close>

text \<open>
  A soft, per-page failure as \<open>run_test\<close> collects it in its list \<open>failures\<close>:
  \<open>missing baseline image: <dir>/page_<n>.png\<close>, and
  \<open>page <n> diff <pct>% exceeds <max>%\<close>.
\<close>

datatype failure =
    MissingBaselineImage string int
  | DiffExceeds int rat rat

text \<open>
  One constructor for each way the script stops. The \<open>SystemExit\<close> messages of the source
  are kept by constructor: \<open>PdfEndpoint\<close> for the three \<open>SystemExit\<close>s of \<open>generate_pdf\<close>,
  \<open>TextInvariantFailure\<close> for \<open>Text invariant failure(s): ...\<close>, \<open>BaselineDirMissing\<close> for
  \<open>Baseline directory missing: ... Run calibrate first.\<close>, \<open>RegressionFailed\<close> for
  \<open>PDF regression failed: ...\<close>. \<open>CalledProcessError\<close> is what \<open>subprocess\<close> raises on a
  nonzero exit of \<open>pdftotext\<close> or \<open>pdftoppm\<close>, \<open>KeyError\<close> a missing dictionary key,
  \<open>ZeroDivisionError\<close> a division by zero and \<open>UnidentifiedImageError\<close> what
  \<open>Image.open\<close> raises on a file it does not accept as an image.
\<close>

datatype error =
    PdfEndpoint string
  | CalledProcessError
  | KeyError string
  | ZeroDivisionError
  | UnidentifiedImageError
  | TextInvariantFailure "string list"
  | BaselineDirMissing string
  | RegressionFailed "failure list"

subsection \<open>Images\<close>

text \<open>
  An image after \<open>Image.open(...).convert("RGB")\<close>: its \<open>size\<close> is \<open>(width, height)\<close> and
  the pixel access object of \<open>load()\<close> maps a coordinate \<open>(x, y)\<close> to an \<open>(r, g, b)\<close> triple
  of integers.
\<close>

type_synonym pixel = "int \<times> int \<times> int"

record image =
  width :: nat
  height :: nat
  pixels :: "nat \<times> nat \<Rightarrow> pixel"

definition img_size :: "image \<Rightarrow> nat \<times> nat" where
  "img_size a = (width a, height a)"

text \<open>
  Lines 94 and 95, \<open>Image.open(path).convert("RGB")\<close>, on the raster that the file at
  \<open>path\<close> holds: \<open>Image.open\<close> accepts a file only if its width and its height are
  both positive and raises \<open>UnidentifiedImageError\<close> otherwise, so every image that
  \<open>diff_percent\<close> goes on with has at least one pixel.
\<close>

definition image_open :: "image \<Rightarrow> error + image" where
  "image_open file =
     (if width file = 0 \<or> height file = 0 then Inl UnidentifiedImageError else Inr file)"

subsection \<open>\<open>diff_percent\<close>\<close>

text \<open>
  The test of line 107:
  \<open>max(abs(p1[0] - p2[0]), abs(p1[1] - p2[1]), abs(p1[2] - p2[2])) > channel_threshold\<close>.
\<close>

fun channel_delta :: "pixel \<Rightarrow> pixel \<Rightarrow> int" where
  "channel_delta (r1, g1, b1) (r2, g2, b2) =
     max (max \<bar>r1 - r2\<bar> \<bar>g1 - g2\<bar>) \<bar>b1 - b2\<bar>"

definition pixel_changed :: "int \<Rightarrow> pixel \<Rightarrow> pixel \<Rightarrow> bool" where
  "pixel_changed channel_threshold p1 p2 \<longleftrightarrow> channel_delta p1 p2 > channel_threshold"

text \<open>The inner loop \<open>for x in range(width)\<close> of row \<open>y\<close>, threading \<open>changed\<close>.\<close>

definition scan_row :: "image \<Rightarrow> image \<Rightarrow> int \<Rightarrow> nat \<Rightarrow> nat \<Rightarrow> nat \<Rightarrow> nat" where
  "scan_row a b channel_threshold w y changed =
     fold (\<lambda>x c. if pixel_changed channel_threshold (pixels a (x, y)) (pixels b (x, y))
                  then c + 1 else c)
          [0..<w] changed"

text \<open>The outer loop \<open>for y in range(height)\<close>, starting from \<open>changed = 0\<close>.\<close>

definition scan_rows :: "image \<Rightarrow> image \<Rightarrow> int \<Rightarrow> nat \<Rightarrow> nat \<Rightarrow> nat" where
  "scan_rows a b channel_threshold w h =
     fold (\<lambda>y c. scan_row a b channel_threshold w y c) [0..<h] 0"

text \<open>
  Lines 96 to 109 of \<open>diff_percent\<close>, on the two images \<open>a\<close> and \<open>b\<close> that lines 94 and
  95 opened (\<open>image_open\<close>). The division of the last line raises \<open>ZeroDivisionError\<close>
  when \<open>total\<close> is 0, which no opened image reaches. The parameter \<open>channel_threshold\<close> is
  always given; its default 15 is the one \<open>run_test\<close> passes when the configuration has
  none.
\<close>

definition diff_percent :: "image \<Rightarrow> image \<Rightarrow> int \<Rightarrow> error + rat" where
  "diff_percent a b channel_threshold =
     (if img_size a \<noteq> img_size b then Inr 100
      else
        let w = width a; h = height a;
            total = w * h;
            changed = scan_rows a b channel_threshold w h
        in if total = 0 then Inl ZeroDivisionError
           else Inr (100 * of_nat changed / of_nat total))"

subsection \<open>The flattened scan of the design notes\<close>

text \<open>
  The design notes call the nested loop ``expressible as a single linear scan (flatten the 2D
  iteration)''. \<open>pixel_buffer\<close> is the flattened buffer of an image, row after row (index
  \<open>i\<close> holds the pixel at column \<open>i mod width\<close> of row \<open>i div width\<close>);
  \<open>scan_linear\<close> is one loop over two such buffers side by side, and
  \<open>diff_percent_flat\<close> is \<open>diff_percent\<close> with the nested loop replaced by it. These
  three definitions follow the words of the design notes, not the source; they are what the
  source's nested loop is compared with. \<open>scan_coords\<close> visits the coordinates in the order
  of any given list.
\<close>

definition pixel_buffer :: "image \<Rightarrow> pixel list" where
  "pixel_buffer a = map (\<lambda>i. pixels a (i mod width a, i div width a)) [0..<width a * height a]"

definition scan_linear :: "pixel list \<Rightarrow> pixel list \<Rightarrow> int \<Rightarrow> nat" where
  "scan_linear pa pb channel_threshold =
     fold (\<lambda>(p1, p2) c. if pixel_changed channel_threshold p1 p2 then c + 1 else c)
          (zip pa pb) 0"

definition diff_percent_flat :: "image \<Rightarrow> image \<Rightarrow> int \<Rightarrow> error + rat" where
  "diff_percent_flat a b channel_threshold =
     (if img_size a \<noteq> img_size b then Inr 100
      else
        let pa = pixel_buffer a; pb = pixel_buffer b;
            total = length pa;
            changed = scan_linear pa pb channel_threshold
        in if total = 0 then Inl ZeroDivisionError
           else Inr (100 * of_nat changed / of_nat total))"

definition scan_coords :: "image \<Rightarrow> image \<Rightarrow> int \<Rightarrow> (nat \<times> nat) list \<Rightarrow> nat" where
  "scan_coords a b channel_threshold cs =
     fold (\<lambda>c n. if pixel_changed channel_threshold (pixels a c) (pixels b c) then n + 1 else n)
          cs 0"

subsection \<open>Configuration, rendered document, environment and file system\<close>

text \<open>
  The configuration of \<open>calibration.json\<close>, with every mandatory key present and of the
  type the script expects. \<open>pixel_channel_threshold\<close> is optional, as the source reads it with
  \<open>.get(..., 15)\<close>. The dictionary \<open>text_invariants\<close> stays a map, so that a missing
  marker key is the \<open>KeyError\<close> it is in the source. \<open>calibration\<close> is the metadata
  block that only \<open>run_calibrate\<close> writes.
\<close>

record thresholds_cfg =
  max_diff_pct_per_page :: rat
  pixel_channel_threshold :: "int option"

record calibration_meta =
  generated_at_utc :: string
  cal_text_invariants :: "(string \<times> bool) list"
  cal_notes :: string

record config =
  fixture :: string
  endpoint :: string
  pages :: "int list"
  baseline_dir :: string
  thresholds :: thresholds_cfg
  text_invariants :: "string \<rightharpoonup> string"
  calibration :: "calibration_meta option"

text \<open>
  The rendered PDF, seen through the two external tools: \<open>page_text doc n\<close> is the output
  of \<open>pdftotext -f n -l n\<close> and \<open>page_png doc n\<close> the raster that \<open>pdftoppm -f n\<close>
  writes; \<open>None\<close> stands for a nonzero exit status of the tool.
\<close>

record pdf =
  page_text :: "int \<Rightarrow> string option"
  page_png :: "int \<Rightarrow> image option"

text \<open>
  What one run obtains from outside: the outcome of the HTTP request of \<open>generate_pdf\<close>
  (\<open>Inl\<close> carries the diagnostic of the \<open>SystemExit\<close>) and the clock.
\<close>

record env =
  render :: "string + pdf"
  utcnow :: string

text \<open>
  The persistent part of the file system: the directories that exist, the image files
  \<open><dir>/page_<n>.png\<close> (keyed by directory and page number), and the configuration file
  as \<open>save_config\<close> last wrote it. The temporary directory of a run is not part of the state:
  it is new for every run and removed at its end, and the page image that \<open>run_test\<close>
  extracts into it and opens again is the image \<open>page_png\<close> gives.
\<close>

record fs =
  dirs :: "string set"
  images :: "string \<times> int \<Rightarrow> image option"
  config_file :: "config option"

text \<open>What the script prints on standard output.\<close>

datatype printed =
    CalibrationUpdated string
  | Summary "(int \<times> rat) list"
  | RegressionPassed

definition generate_pdf :: "env \<Rightarrow> error + pdf" where
  "generate_pdf e = (case render e of Inl detail \<Rightarrow> Inl (PdfEndpoint detail) | Inr doc \<Rightarrow> Inr doc)"

definition extract_page_text :: "pdf \<Rightarrow> int \<Rightarrow> error + string" where
  "extract_page_text doc page =
     (case page_text doc page of None \<Rightarrow> Inl CalledProcessError | Some out \<Rightarrow> Inr out)"

definition extract_page_png :: "pdf \<Rightarrow> int \<Rightarrow> error + image" where
  "extract_page_png doc page =
     (case page_png doc page of None \<Rightarrow> Inl CalledProcessError | Some img \<Rightarrow> Inr img)"

subsection \<open>\<open>assert_text_invariants\<close>\<close>

text \<open>Python's \<open>needle in haystack\<close> on strings: \<open>needle\<close> occurs as a contiguous part.\<close>

fun py_in :: "string \<Rightarrow> string \<Rightarrow> bool" where
  "py_in needle [] = (needle = [])"
| "py_in needle (c # cs) = (prefix needle (c # cs) \<or> py_in needle cs)"

text \<open>
  Lines 113 to 121: both page texts are extracted, then the dictionary \<open>result\<close> is built,
  entry by entry, in the order of the source.
\<close>

definition text_invariant_flags :: "config \<Rightarrow> pdf \<Rightarrow> error + (string \<times> bool) list" where
  "text_invariant_flags cfg doc =
     (let checks = text_invariants cfg in
      case extract_page_text doc 1 of Inl e \<Rightarrow> Inl e | Inr p1 \<Rightarrow>
     (case extract_page_text doc 2 of Inl e \<Rightarrow> Inl e | Inr p2 \<Rightarrow>
     (case checks ''page1_footer_contains'' of
        None \<Rightarrow> Inl (KeyError ''page1_footer_contains'') | Some f1 \<Rightarrow>
     (case checks ''page2_footer_contains'' of
        None \<Rightarrow> Inl (KeyError ''page2_footer_contains'') | Some f2 \<Rightarrow>
     (case checks ''must_start_on_page2'' of
        None \<Rightarrow> Inl (KeyError ''must_start_on_page2'') | Some m \<Rightarrow>
        Inr [(''page1_footer_present'', py_in f1 p1),
             (''page2_footer_present'', py_in f2 p2),
             (''page1_no_how_this_report_works'', \<not> py_in m p1),
             (''page2_has_how_this_report_works'', py_in m p2)])))))"

text \<open>Lines 122 to 125: the keys of the false entries; \<open>SystemExit\<close> if there is one.\<close>

definition assert_text_invariants :: "config \<Rightarrow> pdf \<Rightarrow> error + (string \<times> bool) list" where
  "assert_text_invariants cfg doc =
     (case text_invariant_flags cfg doc of
        Inl e \<Rightarrow> Inl e
      | Inr result \<Rightarrow>
          let failed = map fst (filter (\<lambda>(k, v). \<not> v) result)
          in if failed \<noteq> [] then Inl (TextInvariantFailure failed) else Inr result)"

subsection \<open>\<open>run_calibrate\<close>\<close>

text \<open>
  The loop \<open>for page in cfg["pages"]\<close> of \<open>run_calibrate\<close>: each page is extracted into
  the baseline directory, overwriting the file of that page; a failing \<open>pdftoppm\<close> stops the
  loop and leaves the pages written so far.
\<close>

fun calibrate_pages :: "string \<Rightarrow> pdf \<Rightarrow> int list \<Rightarrow> fs \<Rightarrow> error option \<times> fs" where
  "calibrate_pages dir doc [] s = (None, s)"
| "calibrate_pages dir doc (page # ps) s =
     (case extract_page_png doc page of
        Inl e \<Rightarrow> (Some e, s)
      | Inr img \<Rightarrow> calibrate_pages dir doc ps (s\<lparr>images := (images s)((dir, page) \<mapsto> img)\<rparr>))"

text \<open>
  \<open>run_calibrate\<close> returns the outcome, the file system it leaves and what it printed.
  \<open>mkdir(parents=True, exist_ok=True)\<close> is its first action.
\<close>

definition run_calibrate :: "config \<Rightarrow> env \<Rightarrow> fs \<Rightarrow> (error + int) \<times> fs \<times> printed list" where
  "run_calibrate cfg e s =
     (let dir = baseline_dir cfg;
          s1 = s\<lparr>dirs := insert dir (dirs s)\<rparr>
      in case generate_pdf e of
           Inl err \<Rightarrow> (Inl err, s1, [])
         | Inr doc \<Rightarrow>
            (case assert_text_invariants cfg doc of
               Inl err \<Rightarrow> (Inl err, s1, [])
             | Inr text_flags \<Rightarrow>
                (case calibrate_pages dir doc (pages cfg) s1 of
                   (Some err, s2) \<Rightarrow> (Inl err, s2, [])
                 | (None, s2) \<Rightarrow>
                     let cfg' = cfg\<lparr>calibration := Some
                           \<lparr>generated_at_utc = utcnow e,
                            cal_text_invariants = text_flags,
                            cal_notes = ''Baseline regenerated from current server-side PDF renderer.''\<rparr>\<rparr>
                     in (Inr 0, s2\<lparr>config_file := Some cfg'\<rparr>, [CalibrationUpdated dir]))))"

subsection \<open>\<open>run_test\<close>\<close>

text \<open>
  \<open>round(pct, 4)\<close>, as rounding half to even of the exact value. Python rounds the double
  instead, so the printed value can differ from this one in the fourth decimal when the exact
  value lies on or next to a tie. The rounded value only goes into the printed summary; no
  property below depends on it.
\<close>

definition round4 :: "rat \<Rightarrow> rat" where
  "round4 q =
     (let s = q * 10000; n = \<lfloor>s\<rfloor>; r = s - of_int n
      in of_int (if r < 1 / 2 then n else if 1 / 2 < r then n + 1
                 else if even n then n else n + 1) / 10000)"

text \<open>
  The body of the loop \<open>for page in cfg["pages"]\<close> of \<open>run_test\<close> (lines 168 to 177) on
  the accumulated \<open>failures\<close> and \<open>summary\<close>. The dictionary \<open>summary\<close> is a list of
  entries in insertion order, keyed by the page number of the key \<open>page_<n>_diff_pct\<close>;
  assigning to an existing key keeps its position.
\<close>

definition test_page ::
  "string \<Rightarrow> pdf \<Rightarrow> fs \<Rightarrow> rat \<Rightarrow> int \<Rightarrow> int \<Rightarrow> failure list \<times> (int \<times> rat) list
     \<Rightarrow> error + failure list \<times> (int \<times> rat) list" where
  "test_page dir doc s max_allowed channel_threshold page acc =
     (case acc of (failures, summary) \<Rightarrow>
       (case images s (dir, page) of
          None \<Rightarrow> Inr (failures @ [MissingBaselineImage dir page], summary)
        | Some base \<Rightarrow>
           (case extract_page_png doc page of
              Inl e \<Rightarrow> Inl e
            | Inr cur \<Rightarrow>
               (case diff_percent base cur channel_threshold of
                  Inl e \<Rightarrow> Inl e
                | Inr pct \<Rightarrow>
                    Inr (if pct > max_allowed
                         then failures @ [DiffExceeds page pct max_allowed] else failures,
                         AList.update page (round4 pct) summary)))))"

fun test_pages ::
  "string \<Rightarrow> pdf \<Rightarrow> fs \<Rightarrow> rat \<Rightarrow> int \<Rightarrow> int list \<Rightarrow> failure list \<times> (int \<times> rat) list
     \<Rightarrow> error + failure list \<times> (int \<times> rat) list" where
  "test_pages dir doc s max_allowed channel_threshold [] acc = Inr acc"
| "test_pages dir doc s max_allowed channel_threshold (page # ps) acc =
     (case test_page dir doc s max_allowed channel_threshold page acc of
        Inl e \<Rightarrow> Inl e
      | Inr acc' \<Rightarrow> test_pages dir doc s max_allowed channel_threshold ps acc')"

text \<open>\<open>int(cfg["thresholds"].get("pixel_channel_threshold", 15))\<close>\<close>

definition cfg_channel_threshold :: "config \<Rightarrow> int" where
  "cfg_channel_threshold cfg =
     (case pixel_channel_threshold (thresholds cfg) of None \<Rightarrow> 15 | Some t \<Rightarrow> t)"

text \<open>
  \<open>run_test\<close> returns the outcome and what it printed; it writes nothing outside the
  temporary directory.
\<close>

definition run_test :: "config \<Rightarrow> env \<Rightarrow> fs \<Rightarrow> (error + int) \<times> printed list" where
  "run_test cfg e s =
     (let dir = baseline_dir cfg
      in if dir \<notin> dirs s then (Inl (BaselineDirMissing dir), [])
         else
          (case generate_pdf e of
             Inl err \<Rightarrow> (Inl err, [])
           | Inr doc \<Rightarrow>
              (case assert_text_invariants cfg doc of
                 Inl err \<Rightarrow> (Inl err, [])
               | Inr text_flags \<Rightarrow>
                  let max_allowed = max_diff_pct_per_page (thresholds cfg);
                      channel_threshold = cfg_channel_threshold cfg
                  in (case test_pages dir doc s max_allowed channel_threshold (pages cfg) ([], []) of
                        Inl err \<Rightarrow> (Inl err, [])
                      | Inr (failures, summary) \<Rightarrow>
                          if failures \<noteq> [] then (Inl (RegressionFailed failures), [Summary summary])
                          else (Inr 0, [Summary summary, RegressionPassed])))))"

text \<open>
  The exit status of the process (\<open>raise SystemExit(main())\<close>): the returned integer, and 1
  for a \<open>SystemExit\<close> with a message or an uncaught exception.
\<close>

definition exit_status :: "error + int \<Rightarrow> int" where
  "exit_status r = (case r of Inl e \<Rightarrow> 1 | Inr n \<Rightarrow> n)"

subsection \<open>Auxiliary notions for the proofs\<close>

text \<open>
  The pixel coordinates in the order the nested loop visits them, the test of one coordinate,
  the failures one page contributes to the list \<open>failures\<close> when the loop is not aborted,
  and the page a failure is about.
\<close>

definition coords :: "nat \<Rightarrow> nat \<Rightarrow> (nat \<times> nat) list" where
  "coords w h = concat (map (\<lambda>y. map (\<lambda>x. (x, y)) [0..<w]) [0..<h])"

definition changed_at :: "image \<Rightarrow> image \<Rightarrow> int \<Rightarrow> nat \<times> nat \<Rightarrow> bool" where
  "changed_at a b t c \<longleftrightarrow> pixel_changed t (pixels a c) (pixels b c)"

definition page_failures :: "string \<Rightarrow> pdf \<Rightarrow> fs \<Rightarrow> rat \<Rightarrow> int \<Rightarrow> int \<Rightarrow> failure list" where
  "page_failures dir doc s max_allowed channel_threshold page =
     (case images s (dir, page) of
        None \<Rightarrow> [MissingBaselineImage dir page]
      | Some base \<Rightarrow>
         (case page_png doc page of
            None \<Rightarrow> []
          | Some cur \<Rightarrow>
             (case diff_percent base cur channel_threshold of
                Inl e \<Rightarrow> []
              | Inr pct \<Rightarrow> if pct > max_allowed then [DiffExceeds page pct max_allowed] else [])))"

fun failure_page :: "failure \<Rightarrow> int" where
  "failure_page (MissingBaselineImage dir page) = page"
| "failure_page (DiffExceeds page pct max_allowed) = page"

subsection \<open>Example inputs\<close>

text \<open>
  Small images: \<open>spot\<close> differs from \<open>blank\<close> by 16 in one channel at \<open>(0, 0)\<close> and by
  exactly 15 at \<open>(1, 0)\<close>.
\<close>

definition blank :: "nat \<times> nat \<Rightarrow> pixel" where
  "blank c = (0, 0, 0)"

definition spot :: "nat \<times> nat \<Rightarrow> pixel" where
  "spot c = (if c = (0, 0) then (16, 0, 0) else if c = (1, 0) then (0, 15, 0) else (0, 0, 0))"

definition img_blank_2x2 :: image where
  "img_blank_2x2 = \<lparr>width = 2, height = 2, pixels = blank\<rparr>"

definition img_spot_2x2 :: image where
  "img_spot_2x2 = \<lparr>width = 2, height = 2, pixels = spot\<rparr>"

definition img_blank_1x2 :: image where
  "img_blank_1x2 = \<lparr>width = 1, height = 2, pixels = blank\<rparr>"

text \<open>
  A configuration with two pages, a rendering that satisfies the four invariants, one that has
  the marker on page 1 instead of page 2, and a renderer that is down.
\<close>

definition ex_checks :: "string \<rightharpoonup> string" where
  "ex_checks = [''page1_footer_contains'' \<mapsto> ''Page 1'',
                ''page2_footer_contains'' \<mapsto> ''Page 2'',
                ''must_start_on_page2'' \<mapsto> ''How'']"

definition ex_cfg :: config where
  "ex_cfg = \<lparr>fixture = ''fixture.txt'', endpoint = ''http://localhost/pdf'', pages = [1, 2],
             baseline_dir = ''baseline'',
             thresholds = \<lparr>max_diff_pct_per_page = 25, pixel_channel_threshold = None\<rparr>,
             text_invariants = ex_checks, calibration = None\<rparr>"

definition good_text :: "int \<Rightarrow> string option" where
  "good_text p = (if p = 1 then Some ''Intro Page 1'' else if p = 2 then Some ''How Page 2'' else None)"

definition bad_text :: "int \<Rightarrow> string option" where
  "bad_text p = (if p = 1 then Some ''How Page 1'' else if p = 2 then Some ''Page 2'' else None)"

definition ex_png :: "int \<Rightarrow> image option" where
  "ex_png p = (if p = 1 then Some img_blank_2x2 else if p = 2 then Some img_spot_2x2 else None)"

definition good_pdf :: pdf where
  "good_pdf = \<lparr>page_text = good_text, page_png = ex_png\<rparr>"

definition bad_pdf :: pdf where
  "bad_pdf = \<lparr>page_text = bad_text, page_png = ex_png\<rparr>"

definition good_env :: env where
  "good_env = \<lparr>render = Inr good_pdf, utcnow = ''2026-01-01T00:00:00Z''\<rparr>"

definition bad_env :: env where
  "bad_env = \<lparr>render = Inr bad_pdf, utcnow = ''2026-01-01T00:00:00Z''\<rparr>"

definition down_env :: env where
  "down_env = \<lparr>render = Inl ''HTTP 500'', utcnow = ''2026-01-01T00:00:00Z''\<rparr>"

definition fs_fresh :: fs where
  "fs_fresh = \<lparr>dirs = {}, images = Map.empty, config_file = None\<rparr>"

definition fs_page2_only :: fs where
  "fs_page2_only = \<lparr>dirs = {''baseline''}, images = [(''baseline'', 2) \<mapsto> img_blank_2x2],
                     config_file = None\<rparr>"

definition fs_both :: fs where
  "fs_both = \<lparr>dirs = {''baseline''},
               images = [(''baseline'', 1) \<mapsto> img_blank_2x2, (''baseline'', 2) \<mapsto> img_blank_2x2],
               config_file = None\<rparr>"

section \<open>Properties of \<open>diff_percent\<close>\<close>

subsection \<open>The nested loop counts the changed coordinates\<close>

lemma fold_count:
  "fold (\<lambda>x c. if Q x then c + 1 else c) xs (n::nat) = n + length (filter Q xs)"
  by (induction xs arbitrary: n) simp_all

lemma scan_row_count:
  "scan_row a b t w y n = n + length (filter (changed_at a b t) (map (\<lambda>x. (x, y)) [0..<w]))"
  unfolding scan_row_def changed_at_def
  by (simp add: fold_count filter_map comp_def)

lemma fold_scan_row:
  "fold (\<lambda>y c. scan_row a b t w y c) ys n =
     n + length (filter (changed_at a b t) (concat (map (\<lambda>y. map (\<lambda>x. (x, y)) [0..<w]) ys)))"
  by (induction ys arbitrary: n) (simp_all add: scan_row_count)

lemma scan_rows_count:
  "scan_rows a b t w h = length (filter (changed_at a b t) (coords w h))"
  unfolding scan_rows_def coords_def by (simp add: fold_scan_row)

lemma set_coords: "set (coords w h) = {..<w} \<times> {..<h}"
  unfolding coords_def by auto

lemma length_coords: "length (coords w h) = w * h"
  unfolding coords_def by (simp add: length_concat comp_def sum_list_triv)

lemma scan_rows_le: "scan_rows a b t w h \<le> w * h"
  using length_filter_le[of "changed_at a b t" "coords w h"]
  by (simp add: scan_rows_count length_coords)

lemma coords_row_major:
  "coords w h = map (\<lambda>i. (i mod w, i div w)) [0..<w * h]"
proof (induction h)
  case 0
  show ?case by (simp add: coords_def)
next
  case (Suc h)
  have "[0..<w * h + w] = [0..<w * h] @ [w * h..<w * h + w]"
    by (rule upt_add_eq_append) simp
  moreover have "[w * h..<w * h + w] = map (\<lambda>x. x + w * h) [0..<w]"
    using map_add_upt[of "w * h" w] by (simp only: add.commute)
  moreover have "w * Suc h = w * h + w" by simp
  ultimately have "[0..<w * Suc h] = [0..<w * h] @ map (\<lambda>x. x + w * h) [0..<w]"
    by (simp only:)
  moreover have "map (\<lambda>i. (i mod w, i div w)) (map (\<lambda>x. x + w * h) [0..<w]) = map (\<lambda>x. (x, h)) [0..<w]"
    by (rule map_cong[OF refl, THEN trans[OF map_map]]) auto
  ultimately show ?case using Suc by (simp add: coords_def)
qed

lemma distinct_coords: "distinct (coords w h)"
proof -
  have "inj_on (\<lambda>i. (i mod w, i div w)) (set [0..<w * h])"
  proof (rule inj_onI)
    fix i j assume "(i mod w, i div w) = (j mod w, j div w)"
    then have "i mod w = j mod w" "i div w = j div w" by simp_all
    then show "i = j" by (metis div_mult_mod_eq)
  qed
  then show ?thesis by (simp add: coords_row_major distinct_map)
qed

lemma scan_rows_card:
  "scan_rows a b t w h = card {c \<in> {..<w} \<times> {..<h}. changed_at a b t c}"
proof -
  have "{c. changed_at a b t c} \<inter> set (coords w h) = {c \<in> {..<w} \<times> {..<h}. changed_at a b t c}"
    by (auto simp: set_coords)
  then show ?thesis
    by (simp add: scan_rows_count distinct_length_filter[OF distinct_coords])
qed

lemma pixel_changed_cases:
  "pixel_changed t p1 p2 \<longleftrightarrow>
     (case (p1, p2) of
        ((r1, g1, b1), (r2, g2, b2)) \<Rightarrow> t < max (max \<bar>r1 - r2\<bar> \<bar>g1 - g2\<bar>) \<bar>b1 - b2\<bar>)"
  by (cases p1; cases p2) (simp add: pixel_changed_def)

lemma diff_percent_same_size:
  assumes "img_size a = img_size b" and "0 < width a * height a"
  shows "diff_percent a b t =
           Inr (100 * of_nat (scan_rows a b t (width a) (height a)) / of_nat (width a * height a))"
  using assms by (simp add: diff_percent_def Let_def)

lemma image_open_Inr:
  "image_open file = Inr a \<longleftrightarrow> a = file \<and> 0 < width file \<and> 0 < height file"
  by (auto simp: image_open_def)

lemma image_open_pixels:
  assumes "image_open file = Inr a"
  shows "0 < width a * height a"
  using assms by (simp add: image_open_Inr)

lemma diff_percent_opened_returns:
  assumes "image_open fa = Inr a" and "image_open fb = Inr b"
  shows "\<exists>v. diff_percent a b t = Inr v"
proof (cases "img_size a = img_size b")
  case True
  then show ?thesis
    using image_open_pixels[OF assms(1)] by (simp add: diff_percent_same_size)
next
  case False
  then show ?thesis by (simp add: diff_percent_def)
qed

lemma scan_rows_antimono:
  assumes "t1 \<le> t2"
  shows "scan_rows a b t2 w h \<le> scan_rows a b t1 w h"
proof -
  have "length (filter (changed_at a b t2) cs) \<le> length (filter (changed_at a b t1) cs)" for cs
    using assms by (induction cs) (auto simp: changed_at_def pixel_changed_def)
  then show ?thesis by (simp add: scan_rows_count)
qed

lemma channel_delta_self: "channel_delta p p = 0"
  by (cases p) simp

lemma scan_rows_self:
  assumes "0 \<le> t"
  shows "scan_rows a a t w h = 0"
  using assms by (simp add: scan_rows_count changed_at_def pixel_changed_def channel_delta_self)

lemma scan_linear_buffers:
  assumes "img_size a = img_size b"
  shows "scan_linear (pixel_buffer a) (pixel_buffer b) t = scan_rows a b t (width a) (height a)"
proof -
  let ?is = "[0..<width a * height a]"
  let ?idx = "\<lambda>i. (i mod width a, i div width a)"
  from assms have wh: "width b = width a" "height b = height a"
    by (simp_all add: img_size_def)
  have "zip (pixel_buffer a) (pixel_buffer b) = map (\<lambda>i. (pixels a (?idx i), pixels b (?idx i))) ?is"
    by (simp add: pixel_buffer_def wh zip_map_map zip_same_conv_map)
  then have "scan_linear (pixel_buffer a) (pixel_buffer b) t =
      length (filter (changed_at a b t) (map ?idx ?is))"
    by (simp add: scan_linear_def fold_count case_prod_unfold filter_map comp_def changed_at_def)
  then show ?thesis by (simp add: scan_rows_count coords_row_major)
qed

lemma length_pixel_buffer: "length (pixel_buffer a) = width a * height a"
  by (simp add: pixel_buffer_def)

lemma pixel_buffer_Nil: "pixel_buffer a = [] \<longleftrightarrow> width a = 0 \<or> height a = 0"
  by (simp add: pixel_buffer_def)

lemma scan_coords_any_order:
  assumes "distinct cs" and "set cs = {..<w} \<times> {..<h}"
  shows "scan_coords a b t cs = scan_rows a b t w h"
proof -
  have "scan_coords a b t cs = length (filter (changed_at a b t) cs)"
    by (simp add: scan_coords_def fold_count changed_at_def[abs_def])
  also have "\<dots> = card ({c. changed_at a b t c} \<inter> set cs)"
    using assms(1) by (rule distinct_length_filter)
  also have "\<dots> = card {c \<in> {..<w} \<times> {..<h}. changed_at a b t c}"
    using assms(2) by (auto intro: arg_cong[where f = card])
  finally show ?thesis by (simp add: scan_rows_card)
qed

subsection \<open>Values on the example images\<close>

lemma diff_blank_spot_15: "diff_percent img_blank_2x2 img_spot_2x2 15 = Inr 25"
  by (simp add: diff_percent_def img_size_def img_blank_2x2_def img_spot_2x2_def Let_def
      scan_rows_def scan_row_def pixel_changed_def blank_def spot_def upt_rec)

lemma diff_blank_blank_15: "diff_percent img_blank_2x2 img_blank_2x2 15 = Inr 0"
  by (simp add: diff_percent_def img_size_def img_blank_2x2_def Let_def
      scan_rows_def scan_row_def pixel_changed_def blank_def upt_rec)

subsection \<open>The changed-pixel ratio\<close>

text \<open>
  C1. For every pair of images, as lines 94 and 95 open them, with identical pixel dimensions
  and every threshold \<open>t\<close>, \<open>diff_percent\<close> returns \<open>100 * changed / total\<close>, unrounded,
  where \<open>changed\<close> is the number of coordinates at which the largest of the three absolute
  channel differences is strictly greater than \<open>t\<close> (a pixel exactly at the threshold is not
  counted) and \<open>total = width * height\<close>; the result lies between 0 and 100.
\<close>

theorem diff_percent_changed_ratio:
  assumes "image_open fa = Inr a" and "image_open fb = Inr b" and "img_size a = img_size b"
  shows "\<exists>v. diff_percent a b t = Inr v \<and>
     v = 100 * of_nat (card {(x, y). x < width a \<and> y < height a \<and>
            (case (pixels a (x, y), pixels b (x, y)) of
               ((r1, g1, b1), (r2, g2, b2)) \<Rightarrow> t < max (max \<bar>r1 - r2\<bar> \<bar>g1 - g2\<bar>) \<bar>b1 - b2\<bar>)})
          / of_nat (width a * height a) \<and>
     0 \<le> v \<and> v \<le> 100"
proof -
  let ?S = "{(x, y). x < width a \<and> y < height a \<and>
            (case (pixels a (x, y), pixels b (x, y)) of
               ((r1, g1, b1), (r2, g2, b2)) \<Rightarrow> t < max (max \<bar>r1 - r2\<bar> \<bar>g1 - g2\<bar>) \<bar>b1 - b2\<bar>)}"
  let ?n = "scan_rows a b t (width a) (height a)"
  let ?total = "width a * height a"
  have pos: "0 < ?total" using assms(1) by (rule image_open_pixels)
  have "{c \<in> {..<width a} \<times> {..<height a}. changed_at a b t c} = ?S"
    by (auto simp: changed_at_def pixel_changed_cases)
  then have n: "?n = card ?S" by (simp add: scan_rows_card)
  have le: "?n \<le> ?total" by (rule scan_rows_le)
  have "(of_nat ?n :: rat) \<le> of_nat ?total" using le by (simp only: of_nat_le_iff)
  moreover have "(0::rat) < of_nat ?total" using pos by (simp only: of_nat_0_less_iff)
  ultimately have "100 * of_nat ?n / (of_nat ?total :: rat) \<le> 100"
    by (simp add: pos_divide_le_eq)
  moreover have "(0::rat) \<le> 100 * of_nat ?n / of_nat ?total" by simp
  ultimately show ?thesis
    using diff_percent_same_size[OF assms(3) pos, of t] n by simp
qed

text \<open>
  On the 2 by 2 example one pixel differs by 16 and one by exactly 15: with threshold 15
  only the first counts, and the result is 25.
\<close>

theorem diff_percent_changed_ratio_witness:
  "image_open img_blank_2x2 = Inr img_blank_2x2 \<and>
   image_open img_spot_2x2 = Inr img_spot_2x2 \<and>
   img_size img_blank_2x2 = img_size img_spot_2x2 \<and>
   diff_percent img_blank_2x2 img_spot_2x2 15 = Inr 25 \<and>
   (25::rat) = 100 * of_nat (card {(x, y). x < width img_blank_2x2 \<and> y < height img_blank_2x2 \<and>
            (case (pixels img_blank_2x2 (x, y), pixels img_spot_2x2 (x, y)) of
               ((r1, g1, b1), (r2, g2, b2)) \<Rightarrow> 15 < max (max \<bar>r1 - r2\<bar> \<bar>g1 - g2\<bar>) \<bar>b1 - b2\<bar>)})
          / of_nat (width img_blank_2x2 * height img_blank_2x2)"
proof -
  have oa: "image_open img_blank_2x2 = Inr img_blank_2x2"
    by (simp add: image_open_def img_blank_2x2_def)
  have ob: "image_open img_spot_2x2 = Inr img_spot_2x2"
    by (simp add: image_open_def img_spot_2x2_def)
  have sz: "img_size img_blank_2x2 = img_size img_spot_2x2"
    by (simp add: img_size_def img_blank_2x2_def img_spot_2x2_def)
  have val: "diff_percent img_blank_2x2 img_spot_2x2 15 = Inr 25"
    by (simp add: diff_percent_def img_size_def img_blank_2x2_def img_spot_2x2_def Let_def
        scan_rows_def scan_row_def pixel_changed_def blank_def spot_def upt_rec)
  show ?thesis using diff_percent_changed_ratio[OF oa ob sz, of 15] oa ob sz val by auto
qed

subsection \<open>Different sizes\<close>

text \<open>
  C3. For two images of different size and every threshold, \<open>diff_percent\<close> returns exactly
  100; the result is the same whatever the pixel values of the two images are.
\<close>

theorem diff_percent_size_mismatch:
  assumes "img_size a \<noteq> img_size b"
  shows "diff_percent a b t = Inr 100 \<and>
         diff_percent (a\<lparr>pixels := f\<rparr>) (b\<lparr>pixels := g\<rparr>) t = Inr 100"
  using assms by (simp add: diff_percent_def img_size_def)

theorem diff_percent_size_mismatch_witness:
  "img_size img_blank_1x2 \<noteq> img_size img_spot_2x2 \<and>
   diff_percent img_blank_1x2 img_spot_2x2 15 = Inr 100 \<and>
   diff_percent (img_blank_1x2\<lparr>pixels := spot\<rparr>) (img_spot_2x2\<lparr>pixels := blank\<rparr>) 15 = Inr 100"
proof -
  have ne: "img_size img_blank_1x2 \<noteq> img_size img_spot_2x2"
    by (simp add: img_size_def img_blank_1x2_def img_spot_2x2_def)
  show ?thesis using diff_percent_size_mismatch[OF ne, of 15 spot blank] ne by simp
qed

subsection \<open>Monotonicity in the threshold\<close>

text \<open>
  C7. For every fixed pair of images, as lines 94 and 95 open them, with identical dimensions,
  the result never rises with the threshold: for \<open>t1 \<le> t2\<close> both calls return, and the
  value at \<open>t2\<close> is at most the value at \<open>t1\<close>.
\<close>

theorem diff_percent_antimono:
  assumes "image_open fa = Inr a" and "image_open fb = Inr b"
    and "img_size a = img_size b" and "t1 \<le> t2"
  shows "\<exists>v1 v2. diff_percent a b t1 = Inr v1 \<and> diff_percent a b t2 = Inr v2 \<and> v2 \<le> v1"
proof -
  let ?total = "width a * height a"
  have pos: "0 < ?total" using assms(1) by (rule image_open_pixels)
  have "(of_nat (scan_rows a b t2 (width a) (height a)) :: rat)
          \<le> of_nat (scan_rows a b t1 (width a) (height a))"
    using scan_rows_antimono[OF assms(4)] by (simp only: of_nat_le_iff)
  moreover have "(0::rat) < of_nat ?total" using pos by (simp only: of_nat_0_less_iff)
  ultimately have "100 * of_nat (scan_rows a b t2 (width a) (height a)) / (of_nat ?total :: rat)
          \<le> 100 * of_nat (scan_rows a b t1 (width a) (height a)) / of_nat ?total"
    by (simp add: divide_le_cancel)
  then show ?thesis
    by (simp add: diff_percent_same_size[OF assms(3) pos])
qed

theorem diff_percent_antimono_witness:
  "image_open img_blank_2x2 = Inr img_blank_2x2 \<and>
   image_open img_spot_2x2 = Inr img_spot_2x2 \<and>
   img_size img_blank_2x2 = img_size img_spot_2x2 \<and> (14::int) \<le> 15 \<and>
   diff_percent img_blank_2x2 img_spot_2x2 14 = Inr 50 \<and>
   diff_percent img_blank_2x2 img_spot_2x2 15 = Inr 25 \<and> (25::rat) \<le> 50"
proof -
  have oa: "image_open img_blank_2x2 = Inr img_blank_2x2"
    by (simp add: image_open_def img_blank_2x2_def)
  have ob: "image_open img_spot_2x2 = Inr img_spot_2x2"
    by (simp add: image_open_def img_spot_2x2_def)
  have sz: "img_size img_blank_2x2 = img_size img_spot_2x2"
    by (simp add: img_size_def img_blank_2x2_def img_spot_2x2_def)
  have le: "(14::int) \<le> 15" by simp
  have v1: "diff_percent img_blank_2x2 img_spot_2x2 14 = Inr 50"
    by (simp add: diff_percent_def img_size_def img_blank_2x2_def img_spot_2x2_def Let_def
        scan_rows_def scan_row_def pixel_changed_def blank_def spot_def upt_rec)
  have v2: "diff_percent img_blank_2x2 img_spot_2x2 15 = Inr 25"
    by (simp add: diff_percent_def img_size_def img_blank_2x2_def img_spot_2x2_def Let_def
        scan_rows_def scan_row_def pixel_changed_def blank_def spot_def upt_rec)
  show ?thesis using diff_percent_antimono[OF oa ob sz le] oa ob sz v1 v2 by simp
qed

subsection \<open>Identity\<close>

text \<open>
  C8. For every image, as lines 94 and 95 open it, and every nonnegative threshold,
  comparing the image with itself gives 0.
\<close>

theorem diff_percent_identity:
  assumes "image_open file = Inr img" and "0 \<le> t"
  shows "diff_percent img img t = Inr 0"
  using image_open_pixels[OF assms(1)] assms(2)
  by (simp add: diff_percent_same_size scan_rows_self)

theorem diff_percent_identity_witness:
  "image_open img_spot_2x2 = Inr img_spot_2x2 \<and> (0::int) \<le> 0 \<and>
   diff_percent img_spot_2x2 img_spot_2x2 0 = Inr 0"
proof -
  have o: "image_open img_spot_2x2 = Inr img_spot_2x2"
    by (simp add: image_open_def img_spot_2x2_def)
  have nn: "(0::int) \<le> 0" by simp
  show ?thesis using diff_percent_identity[OF o nn] o by simp
qed

subsection \<open>The flattened scan\<close>

text \<open>
  C9. \<open>diff_percent\<close> with its nested loop and \<open>diff_percent_flat\<close> with one linear scan
  over the flattened buffers are the same function of two images and a threshold (on images
  of different size and on images without pixels too). For images of the same size the two
  scans count the same number of changed pixels, and so does a scan that visits every
  coordinate once in any other order.
\<close>

theorem diff_percent_flat_equiv:
  "diff_percent_flat a b t = diff_percent a b t \<and>
   (img_size a = img_size b \<longrightarrow>
      scan_linear (pixel_buffer a) (pixel_buffer b) t = scan_rows a b t (width a) (height a) \<and>
      (\<forall>cs. distinct cs \<and> set cs = {..<width a} \<times> {..<height a} \<longrightarrow>
            scan_coords a b t cs = scan_rows a b t (width a) (height a)))"
proof -
  have "diff_percent_flat a b t = diff_percent a b t"
  proof (cases "img_size a = img_size b")
    case True
    then show ?thesis
      by (simp add: diff_percent_flat_def diff_percent_def Let_def
          scan_linear_buffers length_pixel_buffer pixel_buffer_Nil)
  next
    case False
    then show ?thesis by (simp add: diff_percent_flat_def diff_percent_def)
  qed
  then show ?thesis
    by (simp add: scan_linear_buffers scan_coords_any_order)
qed

theorem diff_percent_flat_equiv_witness:
  "diff_percent_flat img_blank_2x2 img_spot_2x2 15 = Inr 25 \<and>
   diff_percent img_blank_2x2 img_spot_2x2 15 = Inr 25 \<and>
   img_size img_blank_2x2 = img_size img_spot_2x2 \<and>
   distinct [(1, 1), (0, 0), (1, 0), (0::nat, 1::nat)] \<and>
   set [(1, 1), (0, 0), (1, 0), (0::nat, 1::nat)] = {..<width img_blank_2x2} \<times> {..<height img_blank_2x2} \<and>
   scan_coords img_blank_2x2 img_spot_2x2 15 [(1, 1), (0, 0), (1, 0), (0, 1)] = 1 \<and>
   scan_rows img_blank_2x2 img_spot_2x2 15 (width img_blank_2x2) (height img_blank_2x2) = 1"
proof -
  have sz: "img_size img_blank_2x2 = img_size img_spot_2x2"
    by (simp add: img_size_def img_blank_2x2_def img_spot_2x2_def)
  have d: "distinct [(1, 1), (0, 0), (1, 0), (0::nat, 1::nat)]" by simp
  have s: "set [(1, 1), (0, 0), (1, 0), (0::nat, 1::nat)]
             = {..<width img_blank_2x2} \<times> {..<height img_blank_2x2}"
    by (auto simp: img_blank_2x2_def less_Suc_eq numeral_2_eq_2)
  have v: "diff_percent img_blank_2x2 img_spot_2x2 15 = Inr 25"
    by (simp add: diff_percent_def img_size_def img_blank_2x2_def img_spot_2x2_def Let_def
        scan_rows_def scan_row_def pixel_changed_def blank_def spot_def upt_rec)
  have c: "scan_coords img_blank_2x2 img_spot_2x2 15 [(1, 1), (0, 0), (1, 0), (0, 1)] = 1"
    by (simp add: scan_coords_def img_blank_2x2_def img_spot_2x2_def pixel_changed_def
        blank_def spot_def)
  show ?thesis using diff_percent_flat_equiv[of img_blank_2x2 img_spot_2x2 15] sz d s v c by simp
qed

section \<open>Properties of the text invariants and the two workflows\<close>

subsection \<open>Auxiliary facts\<close>

lemma py_in_sublist: "py_in needle hay \<longleftrightarrow> sublist needle hay"
  by (induction hay) (simp_all add: sublist_Cons_right)

lemma test_page_missing:
  assumes "images s (dir, p) = None"
  shows "test_page dir doc s mx t p (fl, sm) = Inr (fl @ [MissingBaselineImage dir p], sm)"
  using assms by (simp add: test_page_def)

lemma test_page_present:
  assumes "images s (dir, p) = Some base" and "page_png doc p = Some cur"
    and "diff_percent base cur t = Inr pct"
  shows "test_page dir doc s mx t p (fl, sm) =
           Inr (if pct > mx then fl @ [DiffExceeds p pct mx] else fl,
                AList.update p (round4 pct) sm)"
  using assms by (simp add: test_page_def extract_page_png_def)

lemma test_page_no_abort:
  assumes "\<forall>base. images s (dir, p) = Some base \<longrightarrow>
             (\<exists>cur pct. page_png doc p = Some cur \<and> diff_percent base cur t = Inr pct)"
  shows "\<exists>sm'. test_page dir doc s mx t p (fl, sm) = Inr (fl @ page_failures dir doc s mx t p, sm')
           \<and> fst ` set sm' = fst ` set sm \<union> (if images s (dir, p) = None then {} else {p})"
proof (cases "images s (dir, p)")
  case None
  then show ?thesis by (simp add: test_page_missing page_failures_def)
next
  case (Some base)
  with assms obtain cur pct where
    c: "page_png doc p = Some cur" and d: "diff_percent base cur t = Inr pct" by blast
  show ?thesis
    using Some c d by (simp add: test_page_present page_failures_def dom_update)
qed

lemma test_pages_no_abort:
  assumes "\<forall>p\<in>set ps. \<forall>base. images s (dir, p) = Some base \<longrightarrow>
             (\<exists>cur pct. page_png doc p = Some cur \<and> diff_percent base cur t = Inr pct)"
  shows "\<exists>sm'. test_pages dir doc s mx t ps (fl, sm)
                  = Inr (fl @ concat (map (page_failures dir doc s mx t) ps), sm')
           \<and> fst ` set sm' = fst ` set sm \<union> {p \<in> set ps. images s (dir, p) \<noteq> None}"
  using assms
proof (induction ps arbitrary: fl sm)
  case Nil
  show ?case by simp
next
  case (Cons p ps)
  from Cons.prems have hp: "\<forall>base. images s (dir, p) = Some base \<longrightarrow>
             (\<exists>cur pct. page_png doc p = Some cur \<and> diff_percent base cur t = Inr pct)"
    and hps: "\<forall>p\<in>set ps. \<forall>base. images s (dir, p) = Some base \<longrightarrow>
             (\<exists>cur pct. page_png doc p = Some cur \<and> diff_percent base cur t = Inr pct)"
    by simp_all
  from test_page_no_abort[OF hp, of mx fl sm] obtain sm1 where
    s1: "test_page dir doc s mx t p (fl, sm) = Inr (fl @ page_failures dir doc s mx t p, sm1)"
    and k1: "fst ` set sm1 = fst ` set sm \<union> (if images s (dir, p) = None then {} else {p})"
    by blast
  from Cons.IH[OF hps, of "fl @ page_failures dir doc s mx t p" sm1] obtain sm2 where
    s2: "test_pages dir doc s mx t ps (fl @ page_failures dir doc s mx t p, sm1)
           = Inr ((fl @ page_failures dir doc s mx t p)
                    @ concat (map (page_failures dir doc s mx t) ps), sm2)"
    and k2: "fst ` set sm2 = fst ` set sm1 \<union> {p \<in> set ps. images s (dir, p) \<noteq> None}"
    by blast
  have "test_pages dir doc s mx t (p # ps) (fl, sm)
          = Inr (fl @ concat (map (page_failures dir doc s mx t) (p # ps)), sm2)"
    using s1 s2 by simp
  moreover have "fst ` set sm2 = fst ` set sm \<union> {q \<in> set (p # ps). images s (dir, q) \<noteq> None}"
    using k1 k2 by auto
  ultimately show ?case by blast
qed

lemma run_test_pages:
  assumes "baseline_dir cfg \<in> dirs s" and "generate_pdf e = Inr doc"
    and "assert_text_invariants cfg doc = Inr flags"
    and "test_pages (baseline_dir cfg) doc s (max_diff_pct_per_page (thresholds cfg))
           (cfg_channel_threshold cfg) (pages cfg) ([], []) = Inr (fl, sm)"
  shows "run_test cfg e s =
           (if fl \<noteq> [] then (Inl (RegressionFailed fl), [Summary sm])
            else (Inr 0, [Summary sm, RegressionPassed]))"
  using assms by (simp add: run_test_def Let_def)

lemma page_failures_page:
  assumes "f \<in> set (page_failures dir doc s mx t p)"
  shows "failure_page f = p"
  using assms
  by (auto simp: page_failures_def split: option.splits sum.splits if_splits)

lemma page_failures_present:
  assumes "images s (dir, p) = Some base" and "page_png doc p = Some cur"
    and "diff_percent base cur t = Inr pct"
  shows "page_failures dir doc s mx t p = (if pct > mx then [DiffExceeds p pct mx] else [])"
  using assms by (simp add: page_failures_def)

lemma failures_of_page:
  assumes "p \<in> set ps"
  shows "{f \<in> set (concat (map (page_failures dir doc s mx t) ps)). failure_page f = p}
           = set (page_failures dir doc s mx t p)"
  using assms by (auto dest: page_failures_page)

lemma run_calibrate_invariant_abort:
  assumes "generate_pdf e = Inr doc" and "text_invariant_flags cfg doc = Inr flags"
    and "(k, False) \<in> set flags"
  shows "map fst (filter (\<lambda>(k, v). \<not> v) flags) \<noteq> [] \<and>
         run_calibrate cfg e s =
           (Inl (TextInvariantFailure (map fst (filter (\<lambda>(k, v). \<not> v) flags))),
            s\<lparr>dirs := insert (baseline_dir cfg) (dirs s)\<rparr>, [])"
proof -
  let ?failed = "map fst (filter (\<lambda>(k, v). \<not> v) flags)"
  from assms(3) have "(k, False) \<in> set (filter (\<lambda>(k, v). \<not> v) flags)" by simp
  then have ne: "?failed \<noteq> []" by (auto simp: filter_empty_conv)
  then have a: "assert_text_invariants cfg doc = Inl (TextInvariantFailure ?failed)"
    using assms(2) by (simp add: assert_text_invariants_def Let_def)
  have "run_calibrate cfg e s =
      (Inl (TextInvariantFailure ?failed), s\<lparr>dirs := insert (baseline_dir cfg) (dirs s)\<rparr>, [])"
    using assms(1) a by (simp add: run_calibrate_def Let_def)
  with ne show ?thesis by simp
qed

lemma test_pages_all_missing:
  assumes "\<forall>p\<in>set ps. images s (dir, p) = None"
  shows "test_pages dir doc s mx t ps (fl, sm) = Inr (fl @ map (MissingBaselineImage dir) ps, sm)"
  using assms by (induction ps arbitrary: fl) (simp_all add: test_page_missing)

subsection \<open>Facts about the example inputs\<close>

lemmas ex_defs = ex_checks_def ex_cfg_def good_text_def bad_text_def ex_png_def good_pdf_def
  bad_pdf_def good_env_def bad_env_def down_env_def fs_fresh_def fs_page2_only_def fs_both_def

lemma good_flags:
  "text_invariant_flags ex_cfg good_pdf =
     Inr [(''page1_footer_present'', True), (''page2_footer_present'', True),
          (''page1_no_how_this_report_works'', True), (''page2_has_how_this_report_works'', True)]"
  by (simp add: text_invariant_flags_def extract_page_text_def ex_defs)

lemma bad_flags:
  "text_invariant_flags ex_cfg bad_pdf =
     Inr [(''page1_footer_present'', True), (''page2_footer_present'', True),
          (''page1_no_how_this_report_works'', False), (''page2_has_how_this_report_works'', False)]"
  by (simp add: text_invariant_flags_def extract_page_text_def ex_defs)

lemma good_assert:
  "assert_text_invariants ex_cfg good_pdf =
     Inr [(''page1_footer_present'', True), (''page2_footer_present'', True),
          (''page1_no_how_this_report_works'', True), (''page2_has_how_this_report_works'', True)]"
  by (simp add: assert_text_invariants_def good_flags)

lemma ex_cfg_fields:
  "baseline_dir ex_cfg = ''baseline''" "pages ex_cfg = [1, 2]"
  "max_diff_pct_per_page (thresholds ex_cfg) = 25" "cfg_channel_threshold ex_cfg = 15"
  by (simp_all add: ex_cfg_def cfg_channel_threshold_def)

lemma ex_env_render:
  "generate_pdf good_env = Inr good_pdf" "generate_pdf bad_env = Inr bad_pdf"
  "generate_pdf down_env = Inl (PdfEndpoint ''HTTP 500'')"
  by (simp_all add: generate_pdf_def good_env_def bad_env_def down_env_def)

lemma good_pdf_png:
  "page_png good_pdf 1 = Some img_blank_2x2" "page_png good_pdf 2 = Some img_spot_2x2"
  by (simp_all add: good_pdf_def ex_png_def)

lemma fs_page2_only_fields:
  "dirs fs_page2_only = {''baseline''}"
  "images fs_page2_only (''baseline'', 1) = None"
  "images fs_page2_only (''baseline'', 2) = Some img_blank_2x2"
  by (simp_all add: fs_page2_only_def)

lemma fs_both_fields:
  "dirs fs_both = {''baseline''}"
  "images fs_both (''baseline'', 1) = Some img_blank_2x2"
  "images fs_both (''baseline'', 2) = Some img_blank_2x2"
  by (simp_all add: fs_both_def)

lemma round4_25: "round4 25 = 25"
  by (simp add: round4_def)

lemma round4_0: "round4 0 = 0"
  by (simp add: round4_def)

lemma run_test_page2_only:
  "run_test ex_cfg good_env fs_page2_only =
     (Inl (RegressionFailed [MissingBaselineImage ''baseline'' 1]), [Summary [(2, 25)]])"
  by (simp add: run_test_def ex_cfg_fields ex_env_render good_assert test_page_def
      fs_page2_only_fields extract_page_png_def good_pdf_png diff_blank_spot_15 round4_25)

subsection \<open>\<open>assert_text_invariants\<close>\<close>

text \<open>
  C2 (as amended). When both page texts are extracted and the three markers are configured,
  \<open>assert_text_invariants\<close> evaluates all four checks, none depending on another. If all
  four are true it returns the complete mapping of the four named results. If any is false
  it does not return: it raises \<open>SystemExit\<close> itself, naming every false check, in the
  order of the mapping.
\<close>

theorem assert_text_invariants_outcome:
  assumes "page_text doc 1 = Some p1" and "page_text doc 2 = Some p2"
    and "text_invariants cfg ''page1_footer_contains'' = Some f1"
    and "text_invariants cfg ''page2_footer_contains'' = Some f2"
    and "text_invariants cfg ''must_start_on_page2'' = Some m"
    and "flags = [(''page1_footer_present'', py_in f1 p1),
                  (''page2_footer_present'', py_in f2 p2),
                  (''page1_no_how_this_report_works'', \<not> py_in m p1),
                  (''page2_has_how_this_report_works'', py_in m p2)]"
  shows "text_invariant_flags cfg doc = Inr flags \<and>
         assert_text_invariants cfg doc =
           (if py_in f1 p1 \<and> py_in f2 p2 \<and> \<not> py_in m p1 \<and> py_in m p2 then Inr flags
            else Inl (TextInvariantFailure (map fst (filter (\<lambda>(k, v). \<not> v) flags))))"
proof -
  have f: "text_invariant_flags cfg doc = Inr flags"
    using assms by (simp add: text_invariant_flags_def extract_page_text_def)
  show ?thesis
    unfolding assert_text_invariants_def f using assms(6) by (simp add: f)
qed

theorem assert_text_invariants_outcome_witness:
  "page_text good_pdf 1 = Some ''Intro Page 1'' \<and> page_text good_pdf 2 = Some ''How Page 2'' \<and>
   text_invariants ex_cfg ''page1_footer_contains'' = Some ''Page 1'' \<and>
   text_invariants ex_cfg ''page2_footer_contains'' = Some ''Page 2'' \<and>
   text_invariants ex_cfg ''must_start_on_page2'' = Some ''How'' \<and>
   assert_text_invariants ex_cfg good_pdf =
     Inr [(''page1_footer_present'', True), (''page2_footer_present'', True),
          (''page1_no_how_this_report_works'', True), (''page2_has_how_this_report_works'', True)]"
proof -
  have t1: "page_text good_pdf 1 = Some ''Intro Page 1''" by (simp add: good_pdf_def good_text_def)
  have t2: "page_text good_pdf 2 = Some ''How Page 2''" by (simp add: good_pdf_def good_text_def)
  have k1: "text_invariants ex_cfg ''page1_footer_contains'' = Some ''Page 1''"
    by (simp add: ex_cfg_def ex_checks_def)
  have k2: "text_invariants ex_cfg ''page2_footer_contains'' = Some ''Page 2''"
    by (simp add: ex_cfg_def ex_checks_def)
  have k3: "text_invariants ex_cfg ''must_start_on_page2'' = Some ''How''"
    by (simp add: ex_cfg_def ex_checks_def)
  show ?thesis
    using assert_text_invariants_outcome[OF t1 t2 k1 k2 k3 refl] t1 t2 k1 k2 k3 by simp
qed

text \<open>
  A rendering with the marker on page 1 and not on page 2: two checks are false, and the
  function raises \<open>SystemExit\<close> naming both instead of returning the mapping.
\<close>

theorem assert_text_invariants_aborts_counterexample:
  "assert_text_invariants ex_cfg bad_pdf =
     Inl (TextInvariantFailure
           [''page1_no_how_this_report_works'', ''page2_has_how_this_report_works''])"
  by (simp add: assert_text_invariants_def bad_flags)

subsection \<open>Calibration against a broken rendering\<close>

text \<open>
  C4. In \<open>run_calibrate\<close>, if the rendering is obtained and one of the four text invariants
  evaluates to false, the workflow stops with \<open>SystemExit\<close>, so with a nonzero exit status;
  no image file is written (the image files are those before the run), and the configuration
  file is not rewritten either.
\<close>

theorem run_calibrate_invariant_failure:
  assumes "generate_pdf e = Inr doc" and "text_invariant_flags cfg doc = Inr flags"
    and "(k, False) \<in> set flags"
  shows "\<exists>failed. failed \<noteq> [] \<and>
           run_calibrate cfg e s =
             (Inl (TextInvariantFailure failed), s\<lparr>dirs := insert (baseline_dir cfg) (dirs s)\<rparr>, []) \<and>
           exit_status (fst (run_calibrate cfg e s)) \<noteq> 0 \<and>
           images (fst (snd (run_calibrate cfg e s))) = images s \<and>
           config_file (fst (snd (run_calibrate cfg e s))) = config_file s"
proof -
  let ?failed = "map fst (filter (\<lambda>(k, v). \<not> v) flags)"
  from assms(3) have "(k, False) \<in> set (filter (\<lambda>(k, v). \<not> v) flags)" by simp
  then have ne: "?failed \<noteq> []" by (auto simp: filter_empty_conv)
  then have a: "assert_text_invariants cfg doc = Inl (TextInvariantFailure ?failed)"
    using assms(2) by (simp add: assert_text_invariants_def Let_def)
  have r: "run_calibrate cfg e s =
      (Inl (TextInvariantFailure ?failed), s\<lparr>dirs := insert (baseline_dir cfg) (dirs s)\<rparr>, [])"
    using assms(1) a by (simp add: run_calibrate_def Let_def)
  show ?thesis using ne r by (simp add: exit_status_def)
qed

theorem run_calibrate_invariant_failure_witness:
  "generate_pdf bad_env = Inr bad_pdf \<and>
   text_invariant_flags ex_cfg bad_pdf =
     Inr [(''page1_footer_present'', True), (''page2_footer_present'', True),
          (''page1_no_how_this_report_works'', False), (''page2_has_how_this_report_works'', False)] \<and>
   exit_status (fst (run_calibrate ex_cfg bad_env fs_fresh)) \<noteq> 0 \<and>
   images (fst (snd (run_calibrate ex_cfg bad_env fs_fresh))) = images fs_fresh"
proof -
  have g: "generate_pdf bad_env = Inr bad_pdf" by (simp add: generate_pdf_def bad_env_def)
  have m: "(''page1_no_how_this_report_works'', False) \<in>
      set [(''page1_footer_present'', True), (''page2_footer_present'', True),
          (''page1_no_how_this_report_works'', False), (''page2_has_how_this_report_works'', False)]"
    by simp
  show ?thesis using run_calibrate_invariant_failure[OF g bad_flags m, of fs_fresh] g bad_flags by blast
qed

subsection \<open>Missing baselines in the test workflow\<close>

text \<open>
  C5. In \<open>run_test\<close>, a missing baseline directory stops the run at once with the error
  \<open>Baseline directory missing\<close>, whatever the renderer would return, and this error is not
  the error of a failed comparison. A missing baseline image of a page adds a failure for that
  page and the loop goes on with the next page. So, when no tool fails on the pages that have
  a baseline image, the run reaches its end, and every configured page has either its
  missing-baseline failure in the list of failures or its entry in the printed summary.
\<close>

theorem run_test_missing_baseline:
  "(baseline_dir cfg \<notin> dirs s0 \<longrightarrow>
      run_test cfg e0 s0 = (Inl (BaselineDirMissing (baseline_dir cfg)), []) \<and>
      (\<forall>fl. BaselineDirMissing (baseline_dir cfg) \<noteq> RegressionFailed fl)) \<and>
   (images s (dir, p) = None \<longrightarrow>
      test_pages dir doc s mx t (p # ps) (fl, sm) =
      test_pages dir doc s mx t ps (fl @ [MissingBaselineImage dir p], sm)) \<and>
   (baseline_dir cfg \<in> dirs s \<and> generate_pdf e = Inr doc' \<and>
    assert_text_invariants cfg doc' = Inr flags \<and>
    (\<forall>p\<in>set (pages cfg). \<forall>base. images s (baseline_dir cfg, p) = Some base \<longrightarrow>
        (\<exists>cur pct. page_png doc' p = Some cur \<and>
                   diff_percent base cur (cfg_channel_threshold cfg) = Inr pct)) \<longrightarrow>
      (\<exists>failures summary.
         run_test cfg e s =
           (if failures \<noteq> [] then (Inl (RegressionFailed failures), [Summary summary])
            else (Inr 0, [Summary summary, RegressionPassed])) \<and>
         (\<forall>p\<in>set (pages cfg).
            if images s (baseline_dir cfg, p) = None
            then MissingBaselineImage (baseline_dir cfg) p \<in> set failures
            else p \<in> fst ` set summary)))"
proof (intro conjI impI)
  assume "baseline_dir cfg \<notin> dirs s0"
  then show "run_test cfg e0 s0 = (Inl (BaselineDirMissing (baseline_dir cfg)), [])"
    by (simp add: run_test_def)
next
  show "\<forall>fl. BaselineDirMissing (baseline_dir cfg) \<noteq> RegressionFailed fl" by simp
next
  assume "images s (dir, p) = None"
  then show "test_pages dir doc s mx t (p # ps) (fl, sm) =
      test_pages dir doc s mx t ps (fl @ [MissingBaselineImage dir p], sm)"
    by (simp add: test_page_missing)
next
  let ?dir = "baseline_dir cfg"
  let ?mx = "max_diff_pct_per_page (thresholds cfg)"
  let ?t = "cfg_channel_threshold cfg"
  assume H: "baseline_dir cfg \<in> dirs s \<and> generate_pdf e = Inr doc' \<and>
    assert_text_invariants cfg doc' = Inr flags \<and>
    (\<forall>p\<in>set (pages cfg). \<forall>base. images s (baseline_dir cfg, p) = Some base \<longrightarrow>
        (\<exists>cur pct. page_png doc' p = Some cur \<and>
                   diff_percent base cur (cfg_channel_threshold cfg) = Inr pct))"
  then have ok: "\<forall>p\<in>set (pages cfg). \<forall>base. images s (?dir, p) = Some base \<longrightarrow>
        (\<exists>cur pct. page_png doc' p = Some cur \<and> diff_percent base cur ?t = Inr pct)"
    by blast
  from test_pages_no_abort[OF ok, of ?mx "[]" "[]"] obtain sm where
    tp: "test_pages ?dir doc' s ?mx ?t (pages cfg) ([], [])
           = Inr (concat (map (page_failures ?dir doc' s ?mx ?t) (pages cfg)), sm)"
    and keys: "fst ` set sm = {p \<in> set (pages cfg). images s (?dir, p) \<noteq> None}"
    by auto
  let ?fl = "concat (map (page_failures ?dir doc' s ?mx ?t) (pages cfg))"
  have r: "run_test cfg e s =
           (if ?fl \<noteq> [] then (Inl (RegressionFailed ?fl), [Summary sm])
            else (Inr 0, [Summary sm, RegressionPassed]))"
    using H tp by (intro run_test_pages) auto
  have cover: "\<forall>p\<in>set (pages cfg).
            if images s (?dir, p) = None
            then MissingBaselineImage ?dir p \<in> set ?fl
            else p \<in> fst ` set sm"
  proof
    fix p assume p: "p \<in> set (pages cfg)"
    show "if images s (?dir, p) = None
            then MissingBaselineImage ?dir p \<in> set ?fl
            else p \<in> fst ` set sm"
    proof (cases "images s (?dir, p)")
      case None
      then have "MissingBaselineImage ?dir p \<in> set (page_failures ?dir doc' s ?mx ?t p)"
        by (simp add: page_failures_def)
      with p None show ?thesis by auto
    next
      case (Some base)
      with p keys show ?thesis by simp
    qed
  qed
  from r cover show "\<exists>failures summary.
         run_test cfg e s =
           (if failures \<noteq> [] then (Inl (RegressionFailed failures), [Summary summary])
            else (Inr 0, [Summary summary, RegressionPassed])) \<and>
         (\<forall>p\<in>set (pages cfg).
            if images s (baseline_dir cfg, p) = None
            then MissingBaselineImage (baseline_dir cfg) p \<in> set failures
            else p \<in> fst ` set summary)"
    by blast
qed

theorem run_test_missing_baseline_witness:
  "baseline_dir ex_cfg \<notin> dirs fs_fresh \<and>
   run_test ex_cfg good_env fs_fresh = (Inl (BaselineDirMissing ''baseline''), []) \<and>
   images fs_page2_only (''baseline'', 1) = None \<and>
   test_pages ''baseline'' good_pdf fs_page2_only 25 15 [1, 2] ([], []) =
     test_pages ''baseline'' good_pdf fs_page2_only 25 15 [2]
       ([MissingBaselineImage ''baseline'' 1], []) \<and>
   baseline_dir ex_cfg \<in> dirs fs_page2_only \<and> generate_pdf good_env = Inr good_pdf \<and>
   run_test ex_cfg good_env fs_page2_only =
     (Inl (RegressionFailed [MissingBaselineImage ''baseline'' 1]), [Summary [(2, 25)]])"
proof -
  have h1: "baseline_dir ex_cfg \<notin> dirs fs_fresh" by (simp add: ex_cfg_fields fs_fresh_def)
  have h2: "images fs_page2_only (''baseline'', 1) = None" by (rule fs_page2_only_fields)
  have h3: "baseline_dir ex_cfg \<in> dirs fs_page2_only"
    by (simp add: ex_cfg_fields fs_page2_only_fields)
  have h4: "\<forall>p\<in>set (pages ex_cfg). \<forall>base. images fs_page2_only (baseline_dir ex_cfg, p) = Some base \<longrightarrow>
        (\<exists>cur pct. page_png good_pdf p = Some cur \<and>
                   diff_percent base cur (cfg_channel_threshold ex_cfg) = Inr pct)"
    by (simp add: ex_cfg_fields fs_page2_only_fields good_pdf_png diff_blank_spot_15)
  note t = run_test_missing_baseline[where cfg = ex_cfg and ?s0.0 = fs_fresh and ?e0.0 = good_env and dir = "''baseline''"
      and p = 1 and doc = good_pdf and s = fs_page2_only and mx = 25 and t = 15 and ps = "[2]"
      and fl = "[]" and sm = "[]" and e = good_env and doc' = good_pdf]
  from t h1 have c1: "run_test ex_cfg good_env fs_fresh = (Inl (BaselineDirMissing ''baseline''), [])"
    by (simp add: ex_cfg_fields)
  from t h2 have c2: "test_pages ''baseline'' good_pdf fs_page2_only 25 15 [1, 2] ([], []) =
     test_pages ''baseline'' good_pdf fs_page2_only 25 15 [2]
       ([MissingBaselineImage ''baseline'' 1], [])"
    by simp
  show ?thesis
    using h1 h2 h3 h4 c1 c2 ex_env_render(1) run_test_page2_only by simp
qed

subsection \<open>The threshold of the test workflow\<close>

text \<open>
  C6. In \<open>run_test\<close>, when the loop over the pages is reached and no tool fails, a configured
  page with a baseline image has a failure in the list of failures if and only if its diff
  percentage is strictly greater than \<open>max_diff_pct_per_page\<close>; a page whose diff percentage
  equals the threshold has none. The run returns 0 if and only if the list of failures is
  empty, and raises \<open>SystemExit\<close> with the failures otherwise.
\<close>

theorem run_test_threshold_strict:
  assumes "baseline_dir cfg \<in> dirs s" and "generate_pdf e = Inr doc"
    and "assert_text_invariants cfg doc = Inr flags"
    and "\<forall>p\<in>set (pages cfg). \<forall>base. images s (baseline_dir cfg, p) = Some base \<longrightarrow>
           (\<exists>cur pct. page_png doc p = Some cur \<and>
                      diff_percent base cur (cfg_channel_threshold cfg) = Inr pct)"
  shows "\<exists>failures summary.
           test_pages (baseline_dir cfg) doc s (max_diff_pct_per_page (thresholds cfg))
             (cfg_channel_threshold cfg) (pages cfg) ([], []) = Inr (failures, summary) \<and>
           (\<forall>p\<in>set (pages cfg). \<forall>base cur pct.
              images s (baseline_dir cfg, p) = Some base \<and> page_png doc p = Some cur \<and>
              diff_percent base cur (cfg_channel_threshold cfg) = Inr pct \<longrightarrow>
                ((\<exists>f\<in>set failures. failure_page f = p)
                   \<longleftrightarrow> max_diff_pct_per_page (thresholds cfg) < pct) \<and>
                (pct = max_diff_pct_per_page (thresholds cfg)
                   \<longrightarrow> \<not> (\<exists>f\<in>set failures. failure_page f = p))) \<and>
           (fst (run_test cfg e s) = Inr 0 \<longleftrightarrow> failures = []) \<and>
           (failures \<noteq> [] \<longrightarrow> fst (run_test cfg e s) = Inl (RegressionFailed failures))"
proof -
  let ?dir = "baseline_dir cfg"
  let ?mx = "max_diff_pct_per_page (thresholds cfg)"
  let ?t = "cfg_channel_threshold cfg"
  let ?fl = "concat (map (page_failures ?dir doc s ?mx ?t) (pages cfg))"
  from test_pages_no_abort[OF assms(4), of ?mx "[]" "[]"] obtain sm where
    tp: "test_pages ?dir doc s ?mx ?t (pages cfg) ([], []) = Inr (?fl, sm)"
    by auto
  have r: "run_test cfg e s =
           (if ?fl \<noteq> [] then (Inl (RegressionFailed ?fl), [Summary sm])
            else (Inr 0, [Summary sm, RegressionPassed]))"
    using assms(1,2,3) tp by (rule run_test_pages)
  have pages: "\<forall>p\<in>set (pages cfg). \<forall>base cur pct.
              images s (?dir, p) = Some base \<and> page_png doc p = Some cur \<and>
              diff_percent base cur ?t = Inr pct \<longrightarrow>
                ((\<exists>f\<in>set ?fl. failure_page f = p) \<longleftrightarrow> ?mx < pct) \<and>
                (pct = ?mx \<longrightarrow> \<not> (\<exists>f\<in>set ?fl. failure_page f = p))"
  proof (intro ballI allI impI)
    fix p base cur pct
    assume p: "p \<in> set (pages cfg)"
      and h: "images s (?dir, p) = Some base \<and> page_png doc p = Some cur \<and>
              diff_percent base cur ?t = Inr pct"
    have "(\<exists>f\<in>set ?fl. failure_page f = p)
            \<longleftrightarrow> {f \<in> set ?fl. failure_page f = p} \<noteq> {}" by blast
    also have "\<dots> \<longleftrightarrow> set (page_failures ?dir doc s ?mx ?t p) \<noteq> {}"
      by (simp only: failures_of_page[OF p])
    also have "\<dots> \<longleftrightarrow> ?mx < pct"
      using h by (simp add: page_failures_present)
    finally have iff: "(\<exists>f\<in>set ?fl. failure_page f = p) \<longleftrightarrow> ?mx < pct" .
    then show "((\<exists>f\<in>set ?fl. failure_page f = p) \<longleftrightarrow> ?mx < pct) \<and>
                (pct = ?mx \<longrightarrow> \<not> (\<exists>f\<in>set ?fl. failure_page f = p))"
      by auto
  qed
  have v: "(fst (run_test cfg e s) = Inr 0 \<longleftrightarrow> ?fl = []) \<and>
           (?fl \<noteq> [] \<longrightarrow> fst (run_test cfg e s) = Inl (RegressionFailed ?fl))"
    by (simp add: r)
  from tp pages v show ?thesis by blast
qed

theorem run_test_threshold_strict_witness:
  "baseline_dir ex_cfg \<in> dirs fs_both \<and> generate_pdf good_env = Inr good_pdf \<and>
   images fs_both (''baseline'', 2) = Some img_blank_2x2 \<and>
   page_png good_pdf 2 = Some img_spot_2x2 \<and>
   diff_percent img_blank_2x2 img_spot_2x2 (cfg_channel_threshold ex_cfg) = Inr 25 \<and>
   max_diff_pct_per_page (thresholds ex_cfg) = 25 \<and>
   test_pages (baseline_dir ex_cfg) good_pdf fs_both (max_diff_pct_per_page (thresholds ex_cfg))
     (cfg_channel_threshold ex_cfg) (pages ex_cfg) ([], []) = Inr ([], [(1, 0), (2, 25)]) \<and>
   fst (run_test ex_cfg good_env fs_both) = Inr 0"
proof -
  have h1: "baseline_dir ex_cfg \<in> dirs fs_both" by (simp add: ex_cfg_fields fs_both_fields)
  have h4: "\<forall>p\<in>set (pages ex_cfg). \<forall>base. images fs_both (baseline_dir ex_cfg, p) = Some base \<longrightarrow>
        (\<exists>cur pct. page_png good_pdf p = Some cur \<and>
                   diff_percent base cur (cfg_channel_threshold ex_cfg) = Inr pct)"
    by (simp add: ex_cfg_fields fs_both_fields good_pdf_png diff_blank_spot_15 diff_blank_blank_15)
  have tp: "test_pages (baseline_dir ex_cfg) good_pdf fs_both (max_diff_pct_per_page (thresholds ex_cfg))
     (cfg_channel_threshold ex_cfg) (pages ex_cfg) ([], []) = Inr ([], [(1, 0), (2, 25)])"
    by (simp add: ex_cfg_fields test_page_def fs_both_fields extract_page_png_def good_pdf_png
        diff_blank_spot_15 diff_blank_blank_15 round4_25 round4_0)
  from run_test_threshold_strict[OF h1 ex_env_render(1) good_assert h4] tp
  have "fst (run_test ex_cfg good_env fs_both) = Inr 0" by auto
  then show ?thesis
    using h1 tp by (simp add: ex_env_render fs_both_fields good_pdf_png ex_cfg_fields diff_blank_spot_15)
qed

subsection \<open>The directory that an aborted calibration leaves\<close>

text \<open>
  C10. \<open>run_calibrate\<close> creates the baseline directory before it renders and before it
  checks the text invariants: the directory exists after a run that the renderer aborts, and
  after a run that a false text invariant aborts, which writes no image. Where \<open>run_test\<close>
  stops with \<open>Baseline directory missing\<close> before such a calibration, a test run after it
  passes the directory check; if its rendering passes the text invariants and no configured
  page has a baseline image, it fails with one missing-baseline failure for each configured
  page.
\<close>

theorem run_calibrate_leaves_directory:
  "(generate_pdf e0 = Inl err \<longrightarrow>
      run_calibrate cfg e0 s = (Inl err, s\<lparr>dirs := insert (baseline_dir cfg) (dirs s)\<rparr>, [])) \<and>
   (generate_pdf e1 = Inr doc1 \<and> text_invariant_flags cfg doc1 = Inr flags1 \<and>
    (k, False) \<in> set flags1 \<and> s' = fst (snd (run_calibrate cfg e1 s)) \<longrightarrow>
      (\<exists>failed. fst (run_calibrate cfg e1 s) = Inl (TextInvariantFailure failed)) \<and>
      baseline_dir cfg \<in> dirs s' \<and> images s' = images s \<and>
      (baseline_dir cfg \<notin> dirs s \<longrightarrow>
         run_test cfg e2 s = (Inl (BaselineDirMissing (baseline_dir cfg)), [])) \<and>
      (generate_pdf e2 = Inr doc2 \<and> assert_text_invariants cfg doc2 = Inr flags2 \<and>
       pages cfg \<noteq> [] \<and> (\<forall>p\<in>set (pages cfg). images s (baseline_dir cfg, p) = None) \<longrightarrow>
         run_test cfg e2 s' =
           (Inl (RegressionFailed (map (MissingBaselineImage (baseline_dir cfg)) (pages cfg))),
            [Summary []])))"
proof (intro conjI impI)
  assume "generate_pdf e0 = Inl err"
  then show "run_calibrate cfg e0 s = (Inl err, s\<lparr>dirs := insert (baseline_dir cfg) (dirs s)\<rparr>, [])"
    by (simp add: run_calibrate_def Let_def)
next
  assume H: "generate_pdf e1 = Inr doc1 \<and> text_invariant_flags cfg doc1 = Inr flags1 \<and>
    (k, False) \<in> set flags1 \<and> s' = fst (snd (run_calibrate cfg e1 s))"
  then have rc: "run_calibrate cfg e1 s =
           (Inl (TextInvariantFailure (map fst (filter (\<lambda>(k, v). \<not> v) flags1))),
            s\<lparr>dirs := insert (baseline_dir cfg) (dirs s)\<rparr>, [])"
    using run_calibrate_invariant_abort[of e1 doc1 cfg flags1 k s] by blast
  with H have s': "s' = s\<lparr>dirs := insert (baseline_dir cfg) (dirs s)\<rparr>" by simp
  show "\<exists>failed. fst (run_calibrate cfg e1 s) = Inl (TextInvariantFailure failed)"
    by (simp add: rc)
  show "baseline_dir cfg \<in> dirs s'" by (simp add: s')
  show "images s' = images s" by (simp add: s')
  show "run_test cfg e2 s = (Inl (BaselineDirMissing (baseline_dir cfg)), [])"
    if "baseline_dir cfg \<notin> dirs s"
    using that by (simp add: run_test_def)
  show "run_test cfg e2 s' =
           (Inl (RegressionFailed (map (MissingBaselineImage (baseline_dir cfg)) (pages cfg))),
            [Summary []])"
    if T: "generate_pdf e2 = Inr doc2 \<and> assert_text_invariants cfg doc2 = Inr flags2 \<and>
       pages cfg \<noteq> [] \<and> (\<forall>p\<in>set (pages cfg). images s (baseline_dir cfg, p) = None)"
  proof -
    from T have "\<forall>p\<in>set (pages cfg). images s' (baseline_dir cfg, p) = None"
      by (simp add: s')
    then have tp: "test_pages (baseline_dir cfg) doc2 s' (max_diff_pct_per_page (thresholds cfg))
           (cfg_channel_threshold cfg) (pages cfg) ([], [])
            = Inr (map (MissingBaselineImage (baseline_dir cfg)) (pages cfg), [])"
      using test_pages_all_missing[of "pages cfg" s' "baseline_dir cfg" doc2 _ _ "[]" "[]"]
      by simp
    have "baseline_dir cfg \<in> dirs s'" by (simp add: s')
    with T tp show ?thesis by (simp add: run_test_pages)
  qed
qed

theorem run_calibrate_leaves_directory_witness:
  "generate_pdf down_env = Inl (PdfEndpoint ''HTTP 500'') \<and>
   dirs (fst (snd (run_calibrate ex_cfg down_env fs_fresh))) = {''baseline''} \<and>
   generate_pdf bad_env = Inr bad_pdf \<and>
   baseline_dir ex_cfg \<notin> dirs fs_fresh \<and>
   baseline_dir ex_cfg \<in> dirs (fst (snd (run_calibrate ex_cfg bad_env fs_fresh))) \<and>
   run_test ex_cfg good_env fs_fresh = (Inl (BaselineDirMissing ''baseline''), []) \<and>
   generate_pdf good_env = Inr good_pdf \<and> pages ex_cfg \<noteq> [] \<and>
   run_test ex_cfg good_env (fst (snd (run_calibrate ex_cfg bad_env fs_fresh))) =
     (Inl (RegressionFailed [MissingBaselineImage ''baseline'' 1, MissingBaselineImage ''baseline'' 2]),
      [Summary []])"
proof -
  have m: "(''page1_no_how_this_report_works'', False) \<in>
      set [(''page1_footer_present'', True), (''page2_footer_present'', True),
          (''page1_no_how_this_report_works'', False), (''page2_has_how_this_report_works'', False)]"
    by simp
  have h1: "baseline_dir ex_cfg \<notin> dirs fs_fresh" by (simp add: ex_cfg_fields fs_fresh_def)
  have h2: "\<forall>p\<in>set (pages ex_cfg). images fs_fresh (baseline_dir ex_cfg, p) = None"
    by (simp add: fs_fresh_def)
  have h3: "pages ex_cfg \<noteq> []" by (simp add: ex_cfg_fields)
  note t = run_calibrate_leaves_directory[where ?e0.0 = down_env and err = "PdfEndpoint ''HTTP 500''" and cfg = ex_cfg
      and s = fs_fresh and ?e1.0 = bad_env and ?doc1.0 = bad_pdf and k = "''page1_no_how_this_report_works''"
      and s' = "fst (snd (run_calibrate ex_cfg bad_env fs_fresh))" and ?e2.0 = good_env
      and ?doc2.0 = good_pdf
      and ?flags1.0 = "[(''page1_footer_present'', True), (''page2_footer_present'', True),
          (''page1_no_how_this_report_works'', False), (''page2_has_how_this_report_works'', False)]"
      and ?flags2.0 = "[(''page1_footer_present'', True), (''page2_footer_present'', True),
          (''page1_no_how_this_report_works'', True), (''page2_has_how_this_report_works'', True)]"]
  from t ex_env_render bad_flags m h1 h2 h3 good_assert
  show ?thesis
    by (simp add: ex_cfg_fields fs_fresh_def)
qed

end
